theory Spec2Isabelle
  imports Main
begin

section \<open>Strings and arrays as the importer uses them\<close>

text \<open>
  JavaScript strings are modelled as \<open>string\<close>. The importer only concatenates, compares,
  splits at \<open>/\<close> and replaces a fixed substring, so the unit of a string (UTF-16 code unit
  or byte) does not matter to any function below.
\<close>

definition starts_with :: "string \<Rightarrow> string \<Rightarrow> bool" where
  "starts_with pat s = (take (length pat) s = pat)"

text \<open>\<^verbatim>\<open>s.includes(pat)\<close>: \<open>pat\<close> occurs in \<open>s\<close> as a contiguous substring.\<close>

fun str_includes :: "string \<Rightarrow> string \<Rightarrow> bool" where
  "str_includes [] pat = (pat = [])"
| "str_includes (c # s) pat = (starts_with pat (c # s) \<or> str_includes s pat)"

text \<open>
  \<^verbatim>\<open>s.replace(pat, rep)\<close> with a string pattern: only the first occurrence of
  \<open>pat\<close>, wherever it is in \<open>s\<close>, is replaced.
\<close>

fun replace :: "string \<Rightarrow> string \<Rightarrow> string \<Rightarrow> string" where
  "replace [] pat rep = (if pat = [] then rep else [])"
| "replace (c # s) pat rep =
     (if starts_with pat (c # s) then rep @ drop (length pat) (c # s)
      else c # replace s pat rep)"

text \<open>
  \<^verbatim>\<open>s.split(sep)\<close> with a one-character separator; \<open>split_acc\<close> carries the segment
  read so far. The result is never empty.
\<close>

fun split_acc :: "string \<Rightarrow> char \<Rightarrow> string \<Rightarrow> string list" where
  "split_acc acc sep [] = [acc]"
| "split_acc acc sep (c # s) =
     (if c = sep then acc # split_acc [] sep s else split_acc (acc @ [c]) sep s)"

definition split :: "string \<Rightarrow> char \<Rightarrow> string list" where
  "split s sep = split_acc [] sep s"

text \<open>\<^verbatim>\<open>xs.pop()\<close>: the last element, \<open>undefined\<close> on the empty array.\<close>

fun pop :: "'a list \<Rightarrow> 'a option" where
  "pop [] = None"
| "pop [x] = Some x"
| "pop (x # y # xs) = pop (y # xs)"

text \<open>A value placed in a template literal: \<open>undefined\<close> prints as that word.\<close>

definition interpolate :: "string option \<Rightarrow> string" where
  "interpolate v = (case v of None \<Rightarrow> ''undefined'' | Some s \<Rightarrow> s)"

text \<open>\<^verbatim>\<open>xs.join(sep)\<close> on an array of strings.\<close>

fun join :: "string list \<Rightarrow> string \<Rightarrow> string" where
  "join [] sep = []"
| "join [x] sep = x"
| "join (x # y # xs) sep = x @ sep @ join (y # xs) sep"

text \<open>
  The test \<^verbatim>\<open>!v\<close> on a value that is a string, \<open>null\<close> or \<open>undefined\<close>: it holds
  for the two absent values and for the empty string. \<open>truthy\<close> keeps what passes.
\<close>

definition truthy :: "string option \<Rightarrow> string option" where
  "truthy v = (case v of None \<Rightarrow> None | Some s \<Rightarrow> if s = [] then None else Some s)"

section \<open>XML documents as the DOM presents them\<close>

text \<open>
  Every part of the archive is read as text and handed to
  \<^verbatim>\<open>DOMParser.parseFromString(text, "application/xml")\<close>. That parser is
  namespace-aware: an element whose tag is written \<^verbatim>\<open>p:sp\<close> has prefix \<open>p\<close>, local name
  \<open>sp\<close> and qualified name (\<open>tagName\<close>) \<open>p:sp\<close>; a local name never holds a colon.
  An attribute is kept under its qualified name. Comments and processing instructions
  take no part in any operation of the importer and are left out; a CDATA section is a
  \<open>Text\<close> node.
\<close>

datatype node =
    Element (prefix: string) (localName: string)
      (attributes: "(string \<times> string) list") (childNodes: "node list")
  | Text string

datatype document = Document (documentElement: node)

fun tagName :: "node \<Rightarrow> string" where
  "tagName (Element p l a cs) = (if p = [] then l else p @ '':'' @ l)"
| "tagName (Text s) = []"

fun textContent :: "node \<Rightarrow> string" where
  "textContent (Text s) = s"
| "textContent (Element p l a cs) = concat (map textContent cs)"

fun getAttribute :: "node \<Rightarrow> string \<Rightarrow> string option" where
  "getAttribute (Element p l a cs) name = map_of a name"
| "getAttribute (Text s) name = None"

text \<open>The elements of a subtree in document order (preorder), the root included.\<close>

fun elements_of :: "node \<Rightarrow> node list" where
  "elements_of (Text s) = []"
| "elements_of (Element p l a cs) = Element p l a cs # concat (map elements_of cs)"

fun descendants :: "node \<Rightarrow> node list" where
  "descendants (Text s) = []"
| "descendants (Element p l a cs) = concat (map elements_of cs)"

text \<open>
  \<^verbatim>\<open>getElementsByTagName(qualifiedName)\<close> compares the qualified name. On an element it
  ranges over the proper descendants, on a document over every element.
\<close>

definition getElementsByTagName :: "node \<Rightarrow> string \<Rightarrow> node list" where
  "getElementsByTagName e qualifiedName =
     filter (\<lambda>x. tagName x = qualifiedName) (descendants e)"

definition doc_getElementsByTagName :: "document \<Rightarrow> string \<Rightarrow> node list" where
  "doc_getElementsByTagName d qualifiedName =
     filter (\<lambda>x. tagName x = qualifiedName) (elements_of (documentElement d))"

subsection \<open>Selectors\<close>

text \<open>
  The selectors of the importer are built from type selectors, the attribute selectors
  \<^verbatim>\<open>[name="value"]\<close> and \<^verbatim>\<open>[name*="value"]\<close>, the descendant combinator and the
  comma. In a selector the namespace separator is the vertical bar; \<^verbatim>\<open>p\:sp\<close> is the
  one identifier \<open>p:sp\<close>, the backslash escaping the colon, and so a type selector
  without a namespace part. Such a selector stands for the elements of that name in any
  namespace, and the name is compared with the local part of the element's qualified
  name only (Selectors Level 3, section 6.1.1, on namespace-aware clients); this is where
  \<^verbatim>\<open>querySelector\<close> and \<^verbatim>\<open>closest\<close> differ from \<^verbatim>\<open>getElementsByTagName\<close>. An attribute
  selector without a namespace part ranges over the attributes in no namespace, which
  are the unprefixed ones.
\<close>

datatype attr_selector = AttrEquals string string | AttrContains string string

datatype compound = Compound string "attr_selector list"

type_synonym complex = "compound list"

fun matches_attr :: "node \<Rightarrow> attr_selector \<Rightarrow> bool" where
  "matches_attr e (AttrEquals name v) = (getAttribute e name = Some v)"
| "matches_attr e (AttrContains name v) =
     (case getAttribute e name of None \<Rightarrow> False | Some x \<Rightarrow> v \<noteq> [] \<and> str_includes x v)"

fun matches_compound :: "compound \<Rightarrow> node \<Rightarrow> bool" where
  "matches_compound (Compound name tests) (Element p l a cs) =
     (l = name \<and> list_all (matches_attr (Element p l a cs)) tests)"
| "matches_compound c (Text s) = False"

text \<open>
  \<open>matches_ancestors cs anc\<close>: the compounds \<open>cs\<close>, innermost first, are matched by
  ancestors taken in this order from \<open>anc\<close>, the chain of ancestors from the parent
  outwards.
\<close>

fun matches_ancestors :: "compound list \<Rightarrow> node list \<Rightarrow> bool" where
  "matches_ancestors [] anc = True"
| "matches_ancestors (c # cs) [] = False"
| "matches_ancestors (c # cs) (a # anc) =
     ((matches_compound c a \<and> matches_ancestors cs anc) \<or> matches_ancestors (c # cs) anc)"

definition matches_complex :: "complex \<Rightarrow> node list \<Rightarrow> node \<Rightarrow> bool" where
  "matches_complex sel anc e =
     (case rev sel of [] \<Rightarrow> False
      | c # cs \<Rightarrow> matches_compound c e \<and> matches_ancestors cs anc)"

definition matches :: "complex list \<Rightarrow> node list \<Rightarrow> node \<Rightarrow> bool" where
  "matches sels anc e = list_ex (\<lambda>sel. matches_complex sel anc e) sels"

text \<open>Every element of a subtree in document order, each with its chain of ancestors.\<close>

fun located :: "node list \<Rightarrow> node \<Rightarrow> (node \<times> node list) list" where
  "located anc (Text s) = []"
| "located anc (Element p l a cs) =
     (Element p l a cs, anc) # concat (map (located (Element p l a cs # anc)) cs)"

text \<open>\<^verbatim>\<open>document.querySelector\<close>: the first match in document order, or \<open>null\<close>.\<close>

definition querySelector :: "document \<Rightarrow> complex list \<Rightarrow> (node \<times> node list) option" where
  "querySelector d sels =
     find (\<lambda>(e, anc). matches sels anc e) (located [] (documentElement d))"

text \<open>\<^verbatim>\<open>element.closest\<close> for a compound selector: the element itself or its nearest
  ancestor that matches.\<close>

definition closest :: "(node \<times> node list) \<Rightarrow> compound \<Rightarrow> node option" where
  "closest loc c = find (matches_compound c) (fst loc # snd loc)"

section \<open>The deck importer\<close>

text \<open>
  \<open>Error msg\<close> is \<^verbatim>\<open>new Error(msg)\<close> thrown by the importer itself;
  \<open>SyntaxError sel\<close> is the exception \<^verbatim>\<open>querySelector\<close> raises on a selector text
  \<open>sel\<close> that is not a valid selector.
\<close>

datatype error = Error string | SyntaxError string

record slide =
  title :: string
  content :: "string list"
  speakerNotes :: string
  imageUrl :: "string option"

text \<open>
  The archive \<^verbatim>\<open>JSZip.loadAsync(file)\<close> yields: \<^verbatim>\<open>zip.file(path)\<close> is \<open>null\<close> or
  the entry stored under exactly that path. An entry stands here for the document the
  XML parser builds from its text, since the importer parses every entry it reads and
  uses nothing else of it. Every entry of an archive is taken to be readable: for an entry
  that is listed but cannot be decompressed \<^verbatim>\<open>async("string")\<close> rejects, and with it
  the task or the import that reads the entry; an archive with such an entry, like a
  file that is no archive at all, lies outside this model.
\<close>

type_synonym archive = "string \<Rightarrow> document option"

subsection \<open>Looking a relationship up by its identifier\<close>

text \<open>
  The source interpolates the identifier into a selector text:
  \<^verbatim>\<open>presRelsXml.querySelector(`Relationship[Id="${rId}"]`)\<close>.
\<close>

definition dquote :: char where
  "dquote = CHR 0x22"

definition relationship_selector :: "string \<Rightarrow> string" where
  "relationship_selector rId = ''Relationship[Id='' @ [dquote] @ rId @ [dquote] @ '']''"

text \<open>
  Inside a quoted string of a selector every character stands for itself except the
  quote, the backslash and the line breaks (line feed, carriage return, form feed).
\<close>

definition css_literal_char :: "char \<Rightarrow> bool" where
  "css_literal_char c =
     (c \<noteq> dquote \<and> c \<noteq> CHR 0x5C \<and> c \<noteq> CHR 0x0A \<and> c \<noteq> CHR 0x0D \<and> c \<noteq> CHR 0x0C)"

definition css_literal :: "string \<Rightarrow> bool" where
  "css_literal s = list_all css_literal_char s"

text \<open>
  When the first character of the identifier that does not stand for itself is a quote,
  it ends the attribute value; when the next character of the selector text is a quote
  again, a second string follows the value inside the brackets, which no attribute
  selector allows.
\<close>

definition second_string_follows :: "string \<Rightarrow> bool" where
  "second_string_follows rId =
     (case dropWhile css_literal_char (rId @ [dquote]) of
        q # r # rest \<Rightarrow> q = dquote \<and> r = dquote
      | _ \<Rightarrow> False)"

text \<open>
  What the selector engine does with any other selector text depends on the whole
  selector grammar of the browser; it is the parameter \<open>eng\<close> of the importer.
\<close>

type_synonym selector_engine = "string \<Rightarrow> document \<Rightarrow> error + node option"

definition relationshipById ::
  "selector_engine \<Rightarrow> document \<Rightarrow> string \<Rightarrow> error + node option" where
  "relationshipById eng d rId =
     (if css_literal rId then
        Inr (map_option fst
          (querySelector d [[Compound ''Relationship'' [AttrEquals ''Id'' rId]]]))
      else if second_string_follows rId then Inl (SyntaxError (relationship_selector rId))
      else eng (relationship_selector rId) d)"

subsection \<open>Title, body and notes of one slide part\<close>

text \<open>
  The title selector of the source is
  \<^verbatim>\<open>p\:spTree p\:sp p\:nvSpPr p\:nvPr p\:ph[type="title"], p\:spTree p\:sp p\:nvSpPr p\:nvPr p\:ph[type="ctrTitle"]\<close>,
  the body selector \<^verbatim>\<open>p\:spTree p\:sp p\:nvSpPr p\:nvPr p\:ph[type="body"]\<close>, and
  \<^verbatim>\<open>closest\<close> is called with \<^verbatim>\<open>p\:sp\<close>.
\<close>

definition placeholder_selector :: "string \<Rightarrow> complex" where
  "placeholder_selector ty =
     [Compound ''p:spTree'' [], Compound ''p:sp'' [], Compound ''p:nvSpPr'' [],
      Compound ''p:nvPr'' [], Compound ''p:ph'' [AttrEquals ''type'' ty]]"

definition shape_selector :: compound where
  "shape_selector = Compound ''p:sp'' []"

definition titleSp :: "document \<Rightarrow> node option" where
  "titleSp slideXml =
     (case querySelector slideXml
             [placeholder_selector ''title'', placeholder_selector ''ctrTitle''] of
        None \<Rightarrow> None
      | Some titleShape \<Rightarrow> closest titleShape shape_selector)"

definition extractTitle :: "document \<Rightarrow> string" where
  "extractTitle slideXml =
     (case titleSp slideXml of
        Some sp \<Rightarrow> join (map textContent (getElementsByTagName sp ''a:t'')) []
      | None \<Rightarrow> ''Untitled Slide'')"

definition contentSp :: "document \<Rightarrow> node option" where
  "contentSp slideXml =
     (case querySelector slideXml [placeholder_selector ''body''] of
        None \<Rightarrow> None
      | Some contentShape \<Rightarrow> closest contentShape shape_selector)"

definition extractContent :: "document \<Rightarrow> string list" where
  "extractContent slideXml =
     (case contentSp slideXml of
        Some sp \<Rightarrow>
          map (\<lambda>p. join (map textContent (getElementsByTagName p ''a:t'')) [])
            (getElementsByTagName sp ''a:p'')
      | None \<Rightarrow> [])"

definition slideRelsPath :: "string \<Rightarrow> string" where
  "slideRelsPath slidePath =
     ''ppt/slides/_rels/'' @ interpolate (pop (split slidePath CHR ''/'')) @ ''.rels''"

definition notesFilePath :: "string \<Rightarrow> string" where
  "notesFilePath notesPath = ''ppt/slides/'' @ replace notesPath ''../'' []"

definition notesTarget :: "document \<Rightarrow> string option" where
  "notesTarget slideRelsXml =
     (case querySelector slideRelsXml
             [[Compound ''Relationship'' [AttrContains ''Type'' ''notesSlide'']]] of
        None \<Rightarrow> None
      | Some notesRel \<Rightarrow> getAttribute (fst notesRel) ''Target'')"

definition extractNotes :: "archive \<Rightarrow> string \<Rightarrow> string" where
  "extractNotes arch slidePath =
     (case arch (slideRelsPath slidePath) of
        None \<Rightarrow> []
      | Some slideRelsXml \<Rightarrow>
          (case truthy (notesTarget slideRelsXml) of
             None \<Rightarrow> []
           | Some notesPath \<Rightarrow>
               (case arch (notesFilePath notesPath) of
                  None \<Rightarrow> []
                | Some notesXml \<Rightarrow>
                    join (map textContent (doc_getElementsByTagName notesXml ''a:t'')) [])))"

definition parseSlide :: "archive \<Rightarrow> string \<Rightarrow> document \<Rightarrow> slide" where
  "parseSlide arch slidePath slideXml =
     \<lparr>title = extractTitle slideXml, content = extractContent slideXml,
      speakerNotes = extractNotes arch slidePath, imageUrl = None\<rparr>"

subsection \<open>The task of one slide reference\<close>

text \<open>
  The callback mapped over the \<^verbatim>\<open>p:sldId\<close> nodes: \<open>Inr None\<close> is its \<open>null\<close>
  (the reference is skipped), \<open>Inl\<close> an exception, which rejects the task's promise.
\<close>

definition slideTask :: "selector_engine \<Rightarrow> archive \<Rightarrow> node \<Rightarrow> error + slide option" where
  "slideTask eng arch slideIdNode =
     (case truthy (getAttribute slideIdNode ''r:id'') of
        None \<Rightarrow> Inr None
      | Some rId \<Rightarrow>
          (case arch ''ppt/_rels/presentation.xml.rels'' of
             None \<Rightarrow> Inl (Error ''presentation.xml.rels not found'')
           | Some presRelsXml \<Rightarrow>
               (case relationshipById eng presRelsXml rId of
                  Inl e \<Rightarrow> Inl e
                | Inr slideRelNode \<Rightarrow>
                    (case truthy (Option.bind slideRelNode (\<lambda>n. getAttribute n ''Target'')) of
                       None \<Rightarrow> Inr None
                     | Some slidePath \<Rightarrow>
                         (case arch (''ppt/'' @ slidePath) of
                            None \<Rightarrow> Inr None
                          | Some slideXml \<Rightarrow> Inr (Some (parseSlide arch slidePath slideXml)))))))"

subsection \<open>Collecting the tasks\<close>

text \<open>
  \<^verbatim>\<open>Promise.all\<close> keeps one slot per task. A task that fulfils writes its value into
  its own slot, and once every slot is filled the combined promise fulfils with the
  slots in index order. The first task that rejects rejects the combined promise. A
  promise that has settled stays as it is. \<open>sched\<close> lists the tasks in the order in which
  they complete; the combined promise is pending (\<open>None\<close>) while a task has not completed.
\<close>

record 'a all_state =
  slots :: "'a option list"
  settled :: "(error + 'a list) option"

definition all_init :: "nat \<Rightarrow> 'a all_state" where
  "all_init n =
     \<lparr>slots = replicate n None, settled = (if n = 0 then Some (Inr []) else None)\<rparr>"

definition all_settle :: "(error + 'a) list \<Rightarrow> nat \<Rightarrow> 'a all_state \<Rightarrow> 'a all_state" where
  "all_settle rs i st =
     (if i < length rs then
        (case rs ! i of
           Inl e \<Rightarrow> (if settled st = None then st\<lparr>settled := Some (Inl e)\<rparr> else st)
         | Inr v \<Rightarrow>
             (let vs = (slots st)[i := Some v] in
              st\<lparr>slots := vs,
                 settled :=
                   (case settled st of
                      Some r \<Rightarrow> Some r
                    | None \<Rightarrow> (case those vs of Some xs \<Rightarrow> Some (Inr xs) | None \<Rightarrow> None))\<rparr>))
      else st)"

definition Promise_all :: "nat list \<Rightarrow> (error + 'a) list \<Rightarrow> (error + 'a list) option" where
  "Promise_all sched rs = settled (fold (all_settle rs) sched (all_init (length rs)))"

text \<open>\<^verbatim>\<open>.filter(s => s !== null)\<close>\<close>

fun non_null :: "'a option list \<Rightarrow> 'a list" where
  "non_null [] = []"
| "non_null (None # xs) = non_null xs"
| "non_null (Some x # xs) = x # non_null xs"

subsection \<open>parsePptx\<close>

definition parsePptx ::
  "selector_engine \<Rightarrow> nat list \<Rightarrow> archive \<Rightarrow> (error + slide list) option" where
  "parsePptx eng sched arch =
     (case arch ''ppt/presentation.xml'' of
        None \<Rightarrow> Some (Inl (Error ''Invalid PPTX file: presentation.xml not found.''))
      | Some presentationXml \<Rightarrow>
          (let slideIdNodes = doc_getElementsByTagName presentationXml ''p:sldId'';
               slidePromises = map (slideTask eng arch) slideIdNodes
           in case Promise_all sched slidePromises of
                None \<Rightarrow> None
              | Some (Inl e) \<Rightarrow> Some (Inl e)
              | Some (Inr results) \<Rightarrow>
                  (let parsedSlides = non_null results
                   in if length parsedSlides = 0
                      then Some (Inl (Error ''Could not find any slides in the PPTX file.''))
                      else Some (Inr parsedSlides))))"

section \<open>The view layer's operations on the slide list\<close>

text \<open>\<^verbatim>\<open>xs.map((x, index) => f(x, index))\<close>\<close>

definition map_indexed :: "('a \<Rightarrow> nat \<Rightarrow> 'b) \<Rightarrow> 'a list \<Rightarrow> 'b list" where
  "map_indexed f xs = map (\<lambda>(x, index). f x index) (zip xs [0..<length xs])"

text \<open>\<open>handleSave\<close> of the slide viewer: the list handed to \<^verbatim>\<open>onSlidesChange\<close>.\<close>

definition handleSave :: "slide list \<Rightarrow> nat \<Rightarrow> string \<Rightarrow> string \<Rightarrow> slide list" where
  "handleSave slides currentSlideIndex editedTitle editedNotes =
     map_indexed
       (\<lambda>slide index.
          if index = currentSlideIndex
          then slide\<lparr>title := editedTitle, speakerNotes := editedNotes\<rparr>
          else slide)
       slides"

text \<open>
  \<open>handleGenerateImage\<close>, the same in the slide viewer and in the player: \<open>generated\<close> is
  what \<^verbatim>\<open>await generateImage(prompt)\<close> gives, a URL or an exception; on an exception
  \<^verbatim>\<open>onSlidesChange\<close> is not called and the list stays.
\<close>

definition handleGenerateImage :: "slide list \<Rightarrow> nat \<Rightarrow> error + string \<Rightarrow> slide list" where
  "handleGenerateImage slides currentSlideIndex generated =
     (case generated of
        Inl err \<Rightarrow> slides
      | Inr url \<Rightarrow>
          map_indexed
            (\<lambda>slide index.
               if index = currentSlideIndex then slide\<lparr>imageUrl := Some url\<rparr> else slide)
            slides)"

text \<open>\<open>handleDownload\<close>: the text written to \<^verbatim>\<open>presentation.md\<close>.\<close>

definition newline :: string where
  "newline = [CHR 0x0A]"

definition slideMarkdown :: "slide \<Rightarrow> string" where
  "slideMarkdown s =
     (let title_md = ''## '' @ title s;
          content_md = join (map (\<lambda>point. ''- '' @ point) (content s)) newline;
          speakerNotes_md = ''### Speaker Notes'' @ newline @ speakerNotes s
      in title_md @ newline @ newline @ content_md @ newline @ newline @ speakerNotes_md)"

definition markdownContent :: "slide list \<Rightarrow> string" where
  "markdownContent slides =
     join (map slideMarkdown slides) (newline @ newline @ ''---'' @ newline @ newline)"

section \<open>What the specification calls resolving a reference\<close>

text \<open>
  The slide references of the manifest as the source reads them, the elements of
  qualified name \<open>p:sldId\<close> in document order, and the schedules under which every one of
  their tasks completes.
\<close>

definition slideReferences :: "archive \<Rightarrow> node list" where
  "slideReferences arch =
     (case arch ''ppt/presentation.xml'' of
        None \<Rightarrow> []
      | Some presentationXml \<Rightarrow> doc_getElementsByTagName presentationXml ''p:sldId'')"

definition completes :: "nat list \<Rightarrow> archive \<Rightarrow> bool" where
  "completes sched arch = list_all (\<lambda>i. i \<in> set sched) [0..<length (slideReferences arch)]"

text \<open>
  The specification's path rule: a target is a path relative to the base directory of
  its class of parts, and a parent-directory marker in it is resolved against that base
  before the part is looked up. \<open>resolve_segments dirs segs\<close> walks the segments
  \<open>segs\<close> below the directories \<open>dirs\<close> (innermost first); the marker leaves the
  innermost directory.
\<close>

fun resolve_segments :: "string list \<Rightarrow> string list \<Rightarrow> string list" where
  "resolve_segments dirs [] = rev dirs"
| "resolve_segments dirs (seg # segs) =
     (if seg = ''..'' then resolve_segments (tl dirs) segs
      else resolve_segments (seg # dirs) segs)"

definition spec_normalise :: "string \<Rightarrow> string \<Rightarrow> string" where
  "spec_normalise base target =
     join (resolve_segments [] (split (base @ target) CHR ''/'')) ''/''"

text \<open>
  The specification's reading of a reference that resolves: the reference carries a
  relationship identifier (the attribute \<open>r:id\<close>), the manifest's relationship index has
  an entry under that identifier (the first one counts), the entry names a target, and
  the archive holds a part at that target, resolved against the base \<open>ppt/\<close> by the path
  rule. An empty identifier or target counts as none.
\<close>

definition spec_index_entry :: "document \<Rightarrow> string \<Rightarrow> node option" where
  "spec_index_entry index rId =
     find (\<lambda>e. localName e = ''Relationship'' \<and> getAttribute e ''Id'' = Some rId)
       (elements_of (documentElement index))"

definition spec_target :: "archive \<Rightarrow> node \<Rightarrow> string option" where
  "spec_target arch ref =
     (case truthy (getAttribute ref ''r:id'') of
        None \<Rightarrow> None
      | Some rId \<Rightarrow>
          (case arch ''ppt/_rels/presentation.xml.rels'' of
             None \<Rightarrow> None
           | Some index \<Rightarrow>
               (case spec_index_entry index rId of
                  None \<Rightarrow> None
                | Some entry \<Rightarrow> truthy (getAttribute entry ''Target''))))"

definition spec_resolve :: "archive \<Rightarrow> node \<Rightarrow> (string \<times> document) option" where
  "spec_resolve arch ref =
     (case spec_target arch ref of
        None \<Rightarrow> None
      | Some target \<Rightarrow> map_option (Pair target) (arch (spec_normalise ''ppt/'' target)))"

definition spec_slide :: "archive \<Rightarrow> node \<Rightarrow> slide option" where
  "spec_slide arch ref =
     map_option (\<lambda>(slidePath, slideXml). parseSlide arch slidePath slideXml)
       (spec_resolve arch ref)"

text \<open>The identifiers of the manifest in which every character stands for itself.\<close>

definition literal_ids :: "archive \<Rightarrow> bool" where
  "literal_ids arch =
     list_all
       (\<lambda>ref. case getAttribute ref ''r:id'' of None \<Rightarrow> True | Some rId \<Rightarrow> css_literal rId)
       (slideReferences arch)"

text \<open>
  A plain target is a relative path of names: its segments are not empty (so it does not
  start at the root of the package, and names no directory) and none is \<open>.\<close> or the
  parent-directory marker. \<open>plain_targets\<close>: every target that a reference of the manifest
  leads to is plain.
\<close>

definition plain_target :: "string \<Rightarrow> bool" where
  "plain_target target =
     list_all (\<lambda>seg. seg \<noteq> [] \<and> seg \<noteq> ''.'' \<and> seg \<noteq> ''..'') (split target CHR ''/'')"

definition plain_targets :: "archive \<Rightarrow> bool" where
  "plain_targets arch =
     list_all
       (\<lambda>ref. case spec_target arch ref of None \<Rightarrow> True | Some target \<Rightarrow> plain_target target)
       (slideReferences arch)"

section \<open>The invariant of the combined promise\<close>

definition all_inv :: "(error + 'a) list \<Rightarrow> nat set \<Rightarrow> 'a all_state \<Rightarrow> bool" where
  "all_inv rs finished st \<longleftrightarrow>
     length (slots st) = length rs \<and>
     (\<forall>i<length rs. \<forall>v. slots st ! i = Some v \<longrightarrow> rs ! i = Inr v) \<and>
     (\<forall>e. settled st = Some (Inl e) \<longrightarrow> Inl e \<in> set rs) \<and>
     (\<forall>vs. settled st = Some (Inr vs) \<longrightarrow> rs = map Inr vs) \<and>
     (settled st = None \<longrightarrow>
        those (slots st) = None \<and> (\<forall>i\<in>finished. i < length rs \<longrightarrow> slots st ! i \<noteq> None))"

section \<open>Names the namespace-aware parser can deliver\<close>

text \<open>No local name in the subtree holds a colon.\<close>

fun ncnames :: "node \<Rightarrow> bool" where
  "ncnames (Text s) = True"
| "ncnames (Element p l a cs) = (CHR '':'' \<notin> set l \<and> list_all ncnames cs)"

section \<open>What the specification calls the markdown of a slide\<close>

definition spec_heading :: "slide \<Rightarrow> string" where
  "spec_heading s = ''## '' @ title s"

definition spec_bullet :: "string \<Rightarrow> string" where
  "spec_bullet point = ''- '' @ point"

text \<open>The bullets, one to a line.\<close>

definition spec_bullet_list :: "slide \<Rightarrow> string" where
  "spec_bullet_list s =
     (case map spec_bullet (content s) of
        [] \<Rightarrow> []
      | b # bs \<Rightarrow> b @ concat (map (\<lambda>l. newline @ l) bs))"

definition spec_notes_section :: "slide \<Rightarrow> string" where
  "spec_notes_section s = ''### Speaker Notes'' @ newline @ speakerNotes s"

definition spec_block :: "slide \<Rightarrow> string" where
  "spec_block s =
     spec_heading s @ newline @ newline @ spec_bullet_list s @ newline @ newline @
     spec_notes_section s"

definition spec_rule :: string where
  "spec_rule = newline @ newline @ ''---'' @ newline @ newline"

section \<open>Decks used as concrete inputs\<close>

definition ex_reference :: "string \<Rightarrow> node" where
  "ex_reference rId = Element ''p'' ''sldId'' [(''id'', ''256''), (''r:id'', rId)] []"

definition ex_manifest :: "node list \<Rightarrow> document" where
  "ex_manifest refs =
     Document (Element ''p'' ''presentation'' [] [Element ''p'' ''sldIdLst'' [] refs])"

definition ex_relationship :: "string \<Rightarrow> string \<Rightarrow> string \<Rightarrow> node" where
  "ex_relationship rId ty target =
     Element [] ''Relationship''
       [(''Id'', rId),
        (''Type'', ''http://schemas.openxmlformats.org/officeDocument/2006/relationships/'' @ ty),
        (''Target'', target)] []"

definition ex_relationships :: "node list \<Rightarrow> document" where
  "ex_relationships entries = Document (Element [] ''Relationships'' [] entries)"

definition ex_run :: "string \<Rightarrow> node" where
  "ex_run s = Element ''a'' ''r'' [] [Element ''a'' ''t'' [] [Text s]]"

definition ex_paragraph :: "string list \<Rightarrow> node" where
  "ex_paragraph runs = Element ''a'' ''p'' [] (map ex_run runs)"

text \<open>A shape with a placeholder role and the paragraphs of its text body.\<close>

definition ex_shape :: "string \<Rightarrow> string list list \<Rightarrow> node" where
  "ex_shape ty paragraphs =
     Element ''p'' ''sp'' []
       [Element ''p'' ''nvSpPr'' []
          [Element ''p'' ''nvPr'' [] [Element ''p'' ''ph'' [(''type'', ty)] []]],
        Element ''p'' ''txBody'' [] (map ex_paragraph paragraphs)]"

definition ex_slide :: "node list \<Rightarrow> document" where
  "ex_slide shapes =
     Document
       (Element ''p'' ''sld'' []
          [Element ''p'' ''cSld'' [] [Element ''p'' ''spTree'' [] shapes]])"

definition ex_notes :: "string list \<Rightarrow> document" where
  "ex_notes runs =
     Document
       (Element ''p'' ''notes'' []
          [Element ''p'' ''cSld'' []
             [Element ''p'' ''spTree'' []
                [Element ''p'' ''sp'' [] [Element ''p'' ''txBody'' [] [ex_paragraph runs]]]]])"

text \<open>An engine for the selector texts the model leaves open; no deck below reaches it.\<close>

definition no_engine :: selector_engine where
  "no_engine sel d = Inr None"

text \<open>
  A deck laid out as the office suites write it: one slide with a title of two runs, a
  body of two paragraphs, and speaker notes in \<open>ppt/notesSlides/\<close>, which the slide's
  relationship index names by a path that starts with the parent-directory marker.
\<close>

definition standard_title :: node where
  "standard_title = ex_shape ''title'' [[''Intro'', '' to Rome'']]"

definition standard_body :: node where
  "standard_body = ex_shape ''body'' [[''Founded in 753 BC''], [''Seven '', ''hills'']]"

definition standard_slide :: document where
  "standard_slide = ex_slide [standard_title, standard_body]"

definition standard_slide_rels :: document where
  "standard_slide_rels =
     ex_relationships
       [ex_relationship ''rId1'' ''slideLayout'' ''../slideLayouts/slideLayout1.xml'',
        ex_relationship ''rId2'' ''notesSlide'' ''../notesSlides/notesSlide1.xml'']"

definition standard_notes :: document where
  "standard_notes = ex_notes [''Welcome '', ''to Rome.'']"

definition standard_deck :: archive where
  "standard_deck = map_of
     [(''ppt/presentation.xml'', ex_manifest [ex_reference ''rId2'']),
      (''ppt/_rels/presentation.xml.rels'',
         ex_relationships
           [ex_relationship ''rId1'' ''slideMaster'' ''slideMasters/slideMaster1.xml'',
            ex_relationship ''rId2'' ''slide'' ''slides/slide1.xml'']),
      (''ppt/slides/slide1.xml'', standard_slide),
      (''ppt/slides/_rels/slide1.xml.rels'', standard_slide_rels),
      (''ppt/notesSlides/notesSlide1.xml'', standard_notes)]"

text \<open>
  The same tree as a parser without namespaces would deliver it: every element keeps its
  whole tag as its name.
\<close>

fun unprefixed :: "node \<Rightarrow> node" where
  "unprefixed (Text s) = Text s"
| "unprefixed (Element p l a cs) = Element [] (tagName (Element p l a cs)) a (map unprefixed cs)"

definition unprefixed_slide :: document where
  "unprefixed_slide = Document (unprefixed (documentElement standard_slide))"

text \<open>
  Parts for decks of up to three slides. The part of the second slide is missing; the
  notes of the first and third lie beside their slides.
\<close>

definition ex_index :: document where
  "ex_index =
     ex_relationships
       [ex_relationship ''rId1'' ''slide'' ''slides/slide1.xml'',
        ex_relationship ''rId2'' ''slide'' ''slides/slide2.xml'',
        ex_relationship ''rId3'' ''slide'' ''slides/slide3.xml'']"

definition ex_parts :: "(string \<times> document) list" where
  "ex_parts =
     [(''ppt/_rels/presentation.xml.rels'', ex_index),
      (''ppt/slides/slide1.xml'', ex_slide [ex_shape ''title'' [[''One'']]]),
      (''ppt/slides/slide3.xml'', ex_slide [ex_shape ''title'' [[''Three'']]]),
      (''ppt/slides/_rels/slide1.xml.rels'',
         ex_relationships [ex_relationship ''rId1'' ''notesSlide'' ''notes1.xml'']),
      (''ppt/slides/_rels/slide3.xml.rels'',
         ex_relationships [ex_relationship ''rId1'' ''notesSlide'' ''notes3.xml'']),
      (''ppt/slides/notes1.xml'', ex_notes [''first'']),
      (''ppt/slides/notes3.xml'', ex_notes [''third'', '' slide''])]"

definition ex_deck :: "node list \<Rightarrow> archive" where
  "ex_deck refs = map_of ((''ppt/presentation.xml'', ex_manifest refs) # ex_parts)"

definition first_slide :: slide where
  "first_slide =
     \<lparr>title = ''Untitled Slide'', content = [], speakerNotes = ''first'', imageUrl = None\<rparr>"

definition third_slide :: slide where
  "third_slide =
     \<lparr>title = ''Untitled Slide'', content = [], speakerNotes = ''third slide'',
      imageUrl = None\<rparr>"

text \<open>A manifest without slide references.\<close>

definition empty_deck :: archive where
  "empty_deck = ex_deck []"

text \<open>A manifest whose only reference carries no relationship identifier.\<close>

definition unidentified_deck :: archive where
  "unidentified_deck = ex_deck [Element ''p'' ''sldId'' [(''id'', ''256'')] []]"

text \<open>
  A manifest with a reference that resolves and one whose relationship identifier is the
  one character \<open>"\<close>.
\<close>

definition quote_deck :: archive where
  "quote_deck = ex_deck [ex_reference ''rId1'', ex_reference [dquote]]"

text \<open>
  Two references whose parts are both in the archive; the target of the second starts
  with the parent-directory marker.
\<close>

definition detour_deck :: archive where
  "detour_deck = map_of
     [(''ppt/presentation.xml'', ex_manifest [ex_reference ''rId1'', ex_reference ''rId2'']),
      (''ppt/_rels/presentation.xml.rels'',
         ex_relationships
           [ex_relationship ''rId1'' ''slide'' ''slides/slide1.xml'',
            ex_relationship ''rId2'' ''slide'' ''../ppt/slides/slide2.xml'']),
      (''ppt/slides/slide1.xml'', ex_slide [ex_shape ''title'' [[''One'']]]),
      (''ppt/slides/slide2.xml'', ex_slide [ex_shape ''title'' [[''Two'']]])]"

definition two_deck :: archive where
  "two_deck = ex_deck [ex_reference ''rId1'', ex_reference ''rId3'']"

definition three_deck :: archive where
  "three_deck = ex_deck [ex_reference ''rId1'', ex_reference ''rId2'', ex_reference ''rId3'']"

section \<open>Splitting and joining\<close>

lemma join_concat: "join (x # xs) sep = x @ concat (map (\<lambda>y. sep @ y) xs)"
  by (induction xs arbitrary: x) auto

lemma split_acc_line:
  "sep \<notin> set x \<Longrightarrow> split_acc acc sep (x @ sep # rest) = (acc @ x) # split_acc [] sep rest"
  by (induction x arbitrary: acc) auto

lemma split_acc_last: "sep \<notin> set x \<Longrightarrow> split_acc acc sep x = [acc @ x]"
  by (induction x arbitrary: acc) auto

lemma split_acc_not_Nil: "split_acc acc sep s \<noteq> []"
  by (induction s arbitrary: acc) auto

lemma join_Cons: "xs \<noteq> [] \<Longrightarrow> join (x # xs) sep = x @ sep @ join xs sep"
  by (cases xs) auto

lemma join_split_acc: "join (split_acc acc sep s) [sep] = acc @ s"
proof (induction s arbitrary: acc)
  case Nil
  then show ?case by simp
next
  case (Cons c s)
  show ?case
  proof (cases "c = sep")
    case True
    have "join (acc # split_acc [] sep s) [sep] = acc @ [sep] @ join (split_acc [] sep s) [sep]"
      by (rule join_Cons) (rule split_acc_not_Nil)
    with True Cons.IH[of "[]"] show ?thesis by simp
  next
    case False
    with Cons.IH[of "acc @ [c]"] show ?thesis by simp
  qed
qed

lemma resolve_segments_plain:
  "''..'' \<notin> set segs \<Longrightarrow> resolve_segments dirs segs = rev dirs @ segs"
  by (induction segs arbitrary: dirs) auto

text \<open>
  A plain target needs no normalisation: the path rule and the concatenation of the
  source name the same part.
\<close>

lemma spec_normalise_plain:
  assumes "plain_target target"
  shows "spec_normalise ''ppt/'' target = ''ppt/'' @ target"
proof -
  let ?segs = "split_acc [] CHR ''/'' target"
  have "CHR ''/'' \<notin> set ''ppt''" by simp
  from split_acc_line[OF this, of "[]" target]
  have sp: "split (''ppt/'' @ target) CHR ''/'' = ''ppt'' # ?segs"
    by (simp add: split_def)
  have "''..'' \<notin> set ?segs"
    using assms by (auto simp: plain_target_def split_def list_all_iff)
  then have "''..'' \<notin> set (''ppt'' # ?segs)" by simp
  then have "resolve_segments [] (''ppt'' # ?segs) = rev [] @ ''ppt'' # ?segs"
    by (rule resolve_segments_plain)
  then have r: "resolve_segments [] (''ppt'' # ?segs) = ''ppt'' # ?segs"
    by simp
  have j: "join (''ppt'' # ?segs) ''/'' = ''ppt'' @ ''/'' @ join ?segs ''/''"
    by (rule join_Cons) (rule split_acc_not_Nil)
  have t: "join ?segs ''/'' = target"
    using join_split_acc[of "[]" "CHR ''/''" target] by simp
  have "spec_normalise ''ppt/'' target =
      join (resolve_segments [] (split (''ppt/'' @ target) CHR ''/'')) ''/''"
    by (simp only: spec_normalise_def)
  also have "\<dots> = join (''ppt'' # ?segs) ''/''"
    by (simp only: sp r)
  also have "\<dots> = ''ppt'' @ ''/'' @ target"
    by (simp only: j t)
  also have "\<dots> = ''ppt/'' @ target"
    by simp
  finally show ?thesis .
qed

text \<open>The example of the specification's path rule.\<close>

lemma spec_normalise_notes:
  "spec_normalise ''ppt/slides/'' ''../notesSlides/notesSlide1.xml'' =
     ''ppt/notesSlides/notesSlide1.xml''"
  by code_simp

section \<open>The combined promise settles\<close>

lemma those_Some_iff: "those xs = Some ys \<longleftrightarrow> xs = map Some ys"
  by (induction xs arbitrary: ys) (auto split: option.splits)

lemma those_None_iff: "those xs = None \<longleftrightarrow> None \<in> set xs"
  by (induction xs) (auto split: option.splits)

lemma all_inv_init: "all_inv rs {} (all_init (length rs))"
proof -
  have "replicate (length rs) (None :: 'a option) ! i = None" if "i < length rs" for i
    using that by simp
  then show ?thesis
    by (cases rs) (auto simp: all_inv_def all_init_def those_None_iff simp del: replicate.simps)
qed

text \<open>
  The invariant holds at the start and is kept by every completion.
\<close>

lemma all_inv_settle:
  assumes "all_inv rs F st"
  shows "all_inv rs (insert i F) (all_settle rs i st)"
proof (cases "i < length rs")
  case False
  then show ?thesis using assms by (auto simp: all_settle_def all_inv_def)
next
  case True
  show ?thesis
  proof (cases "rs ! i")
    case (Inl e)
    then have "Inl e \<in> set rs" using True by (metis nth_mem)
    then show ?thesis using assms True Inl
      by (auto simp: all_settle_def all_inv_def)
  next
    case (Inr v)
    let ?vs = "(slots st)[i := Some v]"
    have len: "length (slots st) = length rs" using assms by (simp add: all_inv_def)
    have cons: "\<forall>j<length rs. \<forall>w. ?vs ! j = Some w \<longrightarrow> rs ! j = Inr w"
      using assms Inr True len by (auto simp: all_inv_def nth_list_update)
    have full: "rs = map Inr ws" if "those ?vs = Some ws" for ws
    proof -
      from that have eq: "?vs = map Some ws" by (simp add: those_Some_iff)
      then have lw: "length ws = length rs" using len by (metis length_list_update length_map)
      show ?thesis
      proof (rule nth_equalityI)
        show "length rs = length (map Inr ws)" using lw by simp
      next
        fix j assume "j < length rs"
        then have "?vs ! j = Some (ws ! j)" using eq lw by simp
        then show "rs ! j = map Inr ws ! j" using cons \<open>j < length rs\<close> lw by simp
      qed
    qed
    have filled: "?vs ! j \<noteq> None" if "j \<in> insert i F" "j < length rs" "settled st = None" for j
      using that assms len True by (auto simp: all_inv_def nth_list_update)
    show ?thesis
      using assms True Inr len cons full filled
      by (auto simp: all_settle_def all_inv_def Let_def split: option.splits)
  qed
qed

lemma all_inv_fold:
  "all_inv rs F st \<Longrightarrow> all_inv rs (F \<union> set sched) (fold (all_settle rs) sched st)"
proof (induction sched arbitrary: F st)
  case Nil
  then show ?case by simp
next
  case (Cons i sched)
  from all_inv_settle[OF Cons.prems, of i]
  have "all_inv rs (insert i F \<union> set sched) (fold (all_settle rs) sched (all_settle rs i st))"
    by (rule Cons.IH)
  then show ?case by simp
qed

lemma all_inv_final: "all_inv rs (set sched) (fold (all_settle rs) sched (all_init (length rs)))"
  using all_inv_fold[OF all_inv_init, of rs sched] by simp

lemma Promise_all_Inr_D: "Promise_all sched rs = Some (Inr vs) \<Longrightarrow> rs = map Inr vs"
  using all_inv_final[of rs sched] by (simp add: Promise_all_def all_inv_def)

lemma Promise_all_Inl_D: "Promise_all sched rs = Some (Inl e) \<Longrightarrow> Inl e \<in> set rs"
  using all_inv_final[of rs sched] by (simp add: Promise_all_def all_inv_def)

text \<open>
  Once every task has completed the combined promise has settled: it fulfils with the
  values in index order when no task rejected, and rejects with the reason of one of the
  rejected tasks otherwise.
\<close>

lemma Promise_all_settles:
  assumes "\<forall>i<length rs. i \<in> set sched"
  shows "Promise_all sched rs \<noteq> None"
proof
  assume pending: "Promise_all sched rs = None"
  let ?st = "fold (all_settle rs) sched (all_init (length rs))"
  have inv: "all_inv rs (set sched) ?st" by (rule all_inv_final)
  from pending have none: "settled ?st = None" by (simp add: Promise_all_def)
  with inv have "those (slots ?st) = None" by (simp add: all_inv_def)
  then obtain j where j: "j < length (slots ?st)" "slots ?st ! j = None"
    by (auto simp: those_None_iff in_set_conv_nth)
  moreover have "length (slots ?st) = length rs" using inv by (simp add: all_inv_def)
  ultimately have "j < length rs" by simp
  with assms have "j \<in> set sched" by simp
  with inv none \<open>j < length rs\<close> have "slots ?st ! j \<noteq> None" by (simp add: all_inv_def)
  with j show False by simp
qed

lemma Promise_all_pending_D:
  "Promise_all sched rs = None \<Longrightarrow> \<exists>i<length rs. i \<notin> set sched"
  using Promise_all_settles[of rs sched] by blast

lemma Promise_all_fulfils:
  assumes "\<forall>i<length vs. i \<in> set sched"
  shows "Promise_all sched (map Inr vs) = Some (Inr vs)"
proof -
  let ?rs = "map Inr vs :: (error + 'a) list"
  have "Promise_all sched ?rs \<noteq> None" using assms by (intro Promise_all_settles) simp
  then obtain r where r: "Promise_all sched ?rs = Some r" by blast
  show ?thesis
  proof (cases r)
    case (Inl e)
    with r have "Promise_all sched ?rs = Some (Inl e)" by simp
    then have "Inl e \<in> set ?rs" by (rule Promise_all_Inl_D)
    then show ?thesis by auto
  next
    case (Inr ws)
    with r have "?rs = map Inr ws" by (simp add: Promise_all_Inr_D)
    then have "ws = vs" by (simp add: inj_map_eq_map[OF inj_Inr])
    with r Inr show ?thesis by simp
  qed
qed

lemma Promise_all_rejects:
  assumes "\<forall>i<length rs. i \<in> set sched" and "Inl e0 \<in> set rs"
  shows "\<exists>e. Inl e \<in> set rs \<and> Promise_all sched rs = Some (Inl e)"
proof -
  have "Promise_all sched rs \<noteq> None" using assms(1) by (rule Promise_all_settles)
  then obtain r where r: "Promise_all sched rs = Some r" by blast
  show ?thesis
  proof (cases r)
    case (Inl e)
    with r show ?thesis by (auto dest: Promise_all_Inl_D)
  next
    case (Inr ws)
    with r have "rs = map Inr ws" by (simp add: Promise_all_Inr_D)
    with assms(2) show ?thesis by auto
  qed
qed

section \<open>The task of a reference with a literal identifier\<close>

lemma elements_of_Element:
  "x \<in> set (elements_of n) \<Longrightarrow> \<exists>p l a cs. x = Element p l a cs"
  by (induction n) auto

lemma map_fst_located: "map fst (located anc n) = elements_of n"
proof (induction n arbitrary: anc)
  case (Element p l a cs)
  have "map (\<lambda>c. map fst (located (Element p l a cs # anc) c)) cs = map elements_of cs"
    by (rule map_cong) (simp_all add: Element.IH)
  then have "concat (map (\<lambda>c. map fst (located (Element p l a cs # anc) c)) cs) =
      concat (map elements_of cs)"
    by (rule arg_cong)
  then show ?case by (simp add: map_concat comp_def)
next
  case (Text s)
  then show ?case by simp
qed

lemma find_fst:
  "map_option fst (find (\<lambda>(e, anc). P e) xs) = find P (map fst xs)"
  by (induction xs) auto

lemma matches_single: "matches [[c]] anc e = matches_compound c e"
  by (simp add: matches_def matches_complex_def)

lemma querySelector_single:
  "map_option fst (querySelector d [[c]]) = find (matches_compound c) (elements_of (documentElement d))"
  by (simp add: querySelector_def matches_single find_fst map_fst_located)

text \<open>
  For an identifier in which every character stands for itself the selector text is a
  plain attribute test, and the look-up is the first entry with that identifier.
\<close>

lemma relationshipById_literal:
  assumes "css_literal rId"
  shows "relationshipById eng d rId = Inr (spec_index_entry d rId)"
proof -
  have "find (matches_compound (Compound ''Relationship'' [AttrEquals ''Id'' rId]))
          (elements_of (documentElement d)) =
        find (\<lambda>e. localName e = ''Relationship'' \<and> getAttribute e ''Id'' = Some rId)
          (elements_of (documentElement d))"
    by (rule find_cong) (auto dest: elements_of_Element)
  then show ?thesis
    using assms by (simp add: relationshipById_def querySelector_single spec_index_entry_def)
qed

lemma truthy_None [simp]: "truthy None = None"
  by (simp add: truthy_def)

lemma truthy_Some_D: "truthy v = Some s \<Longrightarrow> v = Some s \<and> s \<noteq> []"
  by (auto simp: truthy_def split: option.splits if_splits)

lemma slideTask_literal:
  assumes "case getAttribute ref ''r:id'' of None \<Rightarrow> True | Some rId \<Rightarrow> css_literal rId"
    and "case spec_target arch ref of None \<Rightarrow> True | Some target \<Rightarrow> plain_target target"
  shows "slideTask eng arch ref =
     (case truthy (getAttribute ref ''r:id'') of
        None \<Rightarrow> Inr None
      | Some rId \<Rightarrow>
          (case arch ''ppt/_rels/presentation.xml.rels'' of
             None \<Rightarrow> Inl (Error ''presentation.xml.rels not found'')
           | Some index \<Rightarrow> Inr (spec_slide arch ref)))"
proof (cases "truthy (getAttribute ref ''r:id'')")
  case None
  then show ?thesis by (simp add: slideTask_def)
next
  case (Some rId)
  then have "getAttribute ref ''r:id'' = Some rId" by (simp add: truthy_Some_D)
  with assms(1) have lit: "css_literal rId" by simp
  show ?thesis
  proof (cases "arch ''ppt/_rels/presentation.xml.rels''")
    case None
    with Some show ?thesis by (simp add: slideTask_def)
  next
    case index: (Some index)
    show ?thesis
    proof (cases "spec_target arch ref")
      case None
      with Some index show ?thesis
        by (auto simp: slideTask_def spec_slide_def spec_resolve_def spec_target_def
              relationshipById_literal[OF lit] split: option.splits)
    next
      case target: (Some target)
      with assms(2) have "plain_target target" by simp
      then have "spec_normalise ''ppt/'' target = ''ppt/'' @ target"
        by (rule spec_normalise_plain)
      with Some index target show ?thesis
        by (auto simp: slideTask_def spec_slide_def spec_resolve_def spec_target_def
              relationshipById_literal[OF lit] split: option.splits)
    qed
  qed
qed

lemma slideTask_imageUrl: "slideTask eng arch ref = Inr (Some s) \<Longrightarrow> imageUrl s = None"
  by (auto simp: slideTask_def parseSlide_def split: option.splits sum.splits)

lemma set_non_null: "set (non_null xs) = {x. Some x \<in> set xs}"
  by (induction xs rule: non_null.induct) auto

lemma non_null_map_Some: "non_null (map Some xs) = xs"
  by (induction xs) auto

lemma map_Some_non_null: "map Some (non_null (map f xs)) = map f (filter (\<lambda>x. f x \<noteq> None) xs)"
  by (induction xs) (auto split: option.splits)

lemma non_null_Nil_iff: "non_null xs = [] \<longleftrightarrow> (\<forall>x\<in>set xs. x = None)"
  by (induction xs rule: non_null.induct) auto

lemma completes_iff:
  "completes sched arch \<longleftrightarrow> (\<forall>i<length (slideReferences arch). i \<in> set sched)"
  by (auto simp: completes_def list_all_iff)

text \<open>
  With the manifest and the index present, literal identifiers and plain targets, the import yields the
  slides of the references that resolve, in manifest order, or fails when there is none.
\<close>

lemma parsePptx_literal:
  assumes manifest: "arch ''ppt/presentation.xml'' = Some presentationXml"
    and index: "arch ''ppt/_rels/presentation.xml.rels'' = Some index"
    and lit: "literal_ids arch"
    and plain: "plain_targets arch"
    and sched: "completes sched arch"
  shows "parsePptx eng sched arch =
     Some (if non_null (map (spec_slide arch) (slideReferences arch)) = []
           then Inl (Error ''Could not find any slides in the PPTX file.'')
           else Inr (non_null (map (spec_slide arch) (slideReferences arch))))"
proof -
  let ?refs = "slideReferences arch"
  have refs: "doc_getElementsByTagName presentationXml ''p:sldId'' = ?refs"
    using manifest by (simp add: slideReferences_def)
  have task: "slideTask eng arch r = Inr (spec_slide arch r)" if "r \<in> set ?refs" for r
  proof -
    from lit that
    have l: "case getAttribute r ''r:id'' of None \<Rightarrow> True | Some rId \<Rightarrow> css_literal rId"
      by (simp add: literal_ids_def list_all_iff)
    from plain that
    have p: "case spec_target arch r of None \<Rightarrow> True | Some target \<Rightarrow> plain_target target"
      by (simp add: plain_targets_def list_all_iff)
    from slideTask_literal[OF l p, of eng] index show ?thesis
      by (auto simp: spec_slide_def spec_resolve_def spec_target_def split: option.splits)
  qed
  then have tasks: "map (slideTask eng arch) ?refs = map Inr (map (spec_slide arch) ?refs)"
    by simp
  have fulfil: "Promise_all sched (map Inr (map (spec_slide arch) ?refs)) =
      Some (Inr (map (spec_slide arch) ?refs))"
    using sched by (intro Promise_all_fulfils) (simp add: completes_iff)
  show ?thesis
    using manifest by (simp add: parsePptx_def Let_def refs tasks fulfil del: map_map)
qed

section \<open>References that resolve\<close>

lemma slideReferences_nonempty:
  "slideReferences arch \<noteq> [] \<Longrightarrow> \<exists>presentationXml. arch ''ppt/presentation.xml'' = Some presentationXml"
  by (auto simp: slideReferences_def split: option.splits)

lemma spec_resolve_index:
  "spec_resolve arch ref \<noteq> None \<Longrightarrow> \<exists>index. arch ''ppt/_rels/presentation.xml.rels'' = Some index"
  by (auto simp: spec_resolve_def spec_target_def split: option.splits)

lemma spec_slide_None_iff: "spec_slide arch ref = None \<longleftrightarrow> spec_resolve arch ref = None"
  by (simp add: spec_slide_def)

lemma non_null_all_Some:
  "\<forall>x\<in>set xs. f x \<noteq> None \<Longrightarrow> map Some (non_null (map f xs)) = map f xs"
  by (induction xs) auto

section \<open>The markdown text and the operations of the view layer\<close>

lemma join_bullets: "join (map (\<lambda>point. ''- '' @ point) (content s)) newline = spec_bullet_list s"
proof (cases "content s")
  case Nil
  then show ?thesis by (simp add: spec_bullet_list_def)
next
  case (Cons p ps)
  then show ?thesis
    by (simp add: spec_bullet_list_def spec_bullet_def join_concat comp_def del: join.simps)
qed

lemma slideMarkdown_block: "slideMarkdown s = spec_block s"
  unfolding slideMarkdown_def Let_def join_bullets
  by (simp add: spec_block_def spec_heading_def spec_notes_section_def)

lemma split_lines:
  "\<forall>l\<in>set (b # bs). sep \<notin> set l \<Longrightarrow>
   split_acc [] sep (b @ concat (map (\<lambda>l. [sep] @ l) bs)) = b # bs"
proof (induction bs arbitrary: b)
  case Nil
  then show ?case by (simp add: split_acc_last)
next
  case (Cons c bs)
  then show ?case by (simp add: split_acc_line)
qed

lemma split_bullet_list:
  assumes "content s \<noteq> []" and "\<forall>p\<in>set (content s). CHR 0x0A \<notin> set p"
  shows "split (spec_bullet_list s) (CHR 0x0A) = map spec_bullet (content s)"
proof -
  from assms(1) obtain p ps where c: "content s = p # ps" by (cases "content s") auto
  have "\<forall>l\<in>set (spec_bullet p # map spec_bullet ps). CHR 0x0A \<notin> set l"
    using assms(2) c by (auto simp: spec_bullet_def)
  from split_lines[OF this] show ?thesis
    using c by (simp add: split_def spec_bullet_list_def newline_def comp_def)
qed

lemma length_map_indexed: "length (map_indexed f xs) = length xs"
  by (simp add: map_indexed_def)

lemma nth_map_indexed: "j < length xs \<Longrightarrow> map_indexed f xs ! j = f (xs ! j) j"
  by (simp add: map_indexed_def)

lemma handleSave_imageUrl:
  "map imageUrl (handleSave slides i editedTitle editedNotes) = map imageUrl slides"
  by (rule nth_equalityI) (simp_all add: handleSave_def length_map_indexed nth_map_indexed)

lemma handleGenerateImage_imageUrl:
  "map imageUrl (handleGenerateImage slides i (Inr url)) = (map imageUrl slides)[i := Some url]"
  by (rule nth_equalityI)
    (simp_all add: handleGenerateImage_def length_map_indexed nth_map_indexed nth_list_update)

lemma parsePptx_task:
  assumes "parsePptx eng sched arch = Some (Inr slides)" and "s \<in> set slides"
  shows "\<exists>ref. slideTask eng arch ref = Inr (Some s)"
proof -
  from assms(1) obtain presentationXml results where
    "Promise_all sched
       (map (slideTask eng arch) (doc_getElementsByTagName presentationXml ''p:sldId'')) =
     Some (Inr results)"
    and slides: "slides = non_null results"
    by (auto simp: parsePptx_def Let_def split: option.splits sum.splits if_splits)
  then have "map (slideTask eng arch) (doc_getElementsByTagName presentationXml ''p:sldId'') =
      map Inr results"
    by (simp add: Promise_all_Inr_D)
  moreover from assms(2) slides have "Some s \<in> set results" by (simp add: set_non_null)
  ultimately have "Inr (Some s) \<in>
      set (map (slideTask eng arch) (doc_getElementsByTagName presentationXml ''p:sldId''))"
    by simp
  then show ?thesis by auto
qed

lemma map_Some_eq_D: "map Some xs = map Some ys \<Longrightarrow> xs = ys"
  by (simp add: inj_map_eq_map)

section \<open>Type selectors on the documents of a namespace-aware parser\<close>

lemma located_ncnames:
  "ncnames n \<Longrightarrow> (e, anc) \<in> set (located a n) \<Longrightarrow> \<exists>p l at cs. e = Element p l at cs \<and> CHR '':'' \<notin> set l"
proof (induction n arbitrary: a)
  case (Element p l at cs)
  show ?case
  proof (cases "(e, anc) = (Element p l at cs, a)")
    case True
    with Element.prems(1) show ?thesis by simp
  next
    case False
    with Element.prems(2) obtain c where c: "c \<in> set cs"
      "(e, anc) \<in> set (located (Element p l at cs # a) c)"
      by auto
    moreover from Element.prems(1) c(1) have "ncnames c" by (simp add: list_all_iff)
    ultimately show ?thesis using Element.IH by blast
  qed
next
  case (Text s)
  then show ?case by simp
qed

lemma placeholder_no_match:
  assumes "CHR '':'' \<notin> set l"
  shows "\<not> matches_complex (placeholder_selector ty) anc (Element p l at cs)"
  using assms by (auto simp: matches_complex_def placeholder_selector_def)

lemma querySelector_placeholder:
  assumes "ncnames (documentElement d)"
  shows "querySelector d (map placeholder_selector tys) = None"
proof -
  have "\<not> matches (map placeholder_selector tys) anc e"
    if "(e, anc) \<in> set (located [] (documentElement d))" for e anc
  proof -
    from located_ncnames[OF assms that] obtain p l at cs where
      "e = Element p l at cs" "CHR '':'' \<notin> set l" by blast
    then show ?thesis
      by (simp add: matches_def list_ex_iff placeholder_no_match)
  qed
  then show ?thesis
    by (auto simp: querySelector_def find_None_iff)
qed

text \<open>
  On a document whose local names hold no colon, which is every document the
  namespace-aware parser delivers, the placeholder selectors match no element: the title
  is always the fixed label and the content always empty.
\<close>

lemma extractTitle_namespace_aware:
  "ncnames (documentElement slideXml) \<Longrightarrow> extractTitle slideXml = ''Untitled Slide''"
  using querySelector_placeholder[of slideXml "[''title'', ''ctrTitle'']"]
  by (simp add: extractTitle_def titleSp_def)

lemma extractContent_namespace_aware:
  "ncnames (documentElement slideXml) \<Longrightarrow> extractContent slideXml = []"
  using querySelector_placeholder[of slideXml "[''body'']"]
  by (simp add: extractContent_def contentSp_def)

text \<open>
  With literal identifiers and plain targets the import fails exactly when the manifest is absent, the
  relationship index is absent, or no reference resolves.
\<close>

lemma parsePptx_literal_fails_iff:
  assumes lit: "literal_ids arch" and plain: "plain_targets arch"
    and sched: "completes sched arch"
  shows "(\<exists>e. parsePptx eng sched arch = Some (Inl e)) \<longleftrightarrow>
           (arch ''ppt/presentation.xml'' = None \<or>
            arch ''ppt/_rels/presentation.xml.rels'' = None \<or>
            (\<forall>ref\<in>set (slideReferences arch). spec_resolve arch ref = None))"
proof (cases "arch ''ppt/presentation.xml''")
  case None
  then show ?thesis by (simp add: parsePptx_def)
next
  case (Some presentationXml)
  let ?refs = "slideReferences arch"
  let ?tasks = "map (slideTask eng arch) ?refs"
  have refs: "doc_getElementsByTagName presentationXml ''p:sldId'' = ?refs"
    using Some by (simp add: slideReferences_def)
  show ?thesis
  proof (cases "arch ''ppt/_rels/presentation.xml.rels''")
    case (Some index)
    have "non_null (map (spec_slide arch) ?refs) = [] \<longleftrightarrow>
        (\<forall>ref\<in>set ?refs. spec_resolve arch ref = None)"
      by (simp add: non_null_Nil_iff spec_slide_None_iff)
    with parsePptx_literal[OF \<open>arch ''ppt/presentation.xml'' = Some presentationXml\<close> Some lit plain sched, of eng]
    show ?thesis using Some \<open>arch ''ppt/presentation.xml'' = Some presentationXml\<close> by auto
  next
    case None
    have c: "\<forall>i<length ?tasks. i \<in> set sched" using sched by (simp add: completes_iff)
    have task: "slideTask eng arch r = Inr None \<or>
        slideTask eng arch r = Inl (Error ''presentation.xml.rels not found'')" for r
      using None by (auto simp: slideTask_def split: option.splits)
    have "\<exists>e. parsePptx eng sched arch = Some (Inl e)"
    proof (cases "\<exists>e. Inl e \<in> set ?tasks")
      case True
      then obtain e0 where "Inl e0 \<in> set ?tasks" by blast
      from Promise_all_rejects[OF c this] obtain e where
        "Promise_all sched ?tasks = Some (Inl e)" by blast
      then show ?thesis
        using \<open>arch ''ppt/presentation.xml'' = Some presentationXml\<close> refs
        by (simp add: parsePptx_def Let_def)
    next
      case False
      have "slideTask eng arch r = Inr None" if "r \<in> set ?refs" for r
      proof -
        from that have "slideTask eng arch r \<in> set ?tasks" by simp
        with False have "slideTask eng arch r \<noteq> Inl (Error ''presentation.xml.rels not found'')"
          by metis
        with task[of r] show ?thesis by blast
      qed
      then have tasks: "?tasks = map Inr (map (\<lambda>r. None) ?refs)" by simp
      have "Promise_all sched (map Inr (map (\<lambda>r. None :: slide option) ?refs)) =
          Some (Inr (map (\<lambda>r. None) ?refs))"
        using c by (intro Promise_all_fulfils) simp
      moreover have "non_null (map (\<lambda>r. None :: slide option) ?refs) = []"
        by (simp add: non_null_Nil_iff)
      ultimately show ?thesis
        using \<open>arch ''ppt/presentation.xml'' = Some presentationXml\<close>
        by (simp add: parsePptx_def Let_def refs tasks del: map_map)
    qed
    then show ?thesis using None by simp
  qed
qed

lemma standard_slide_ncnames: "ncnames (documentElement standard_slide)"
  by code_simp

text \<open>
  The import of the standard deck: the title, the body and the notes of its slide are all
  lost.
\<close>

lemma parsePptx_standard_deck:
  "parsePptx no_engine [0] standard_deck =
     Some (Inr [\<lparr>title = ''Untitled Slide'', content = [], speakerNotes = [],
                 imageUrl = None\<rparr>])"
  by code_simp

text \<open>
  On the tree of the same slide with the tags kept whole, as a parser without namespaces
  would deliver it, the selectors match, and the title and the body are the concatenated
  runs.
\<close>

lemma extraction_without_namespaces:
  "extractTitle unprefixed_slide = ''Intro to Rome'' \<and>
   extractContent unprefixed_slide = [''Founded in 753 BC'', ''Seven hills'']"
  by code_simp

section \<open>Count and order of the imported slides\<close>

text \<open>
  Where the source drops a slide that the specification's path rule reaches: both parts
  of \<open>detour_deck\<close> are in the archive and both references resolve, the second through
  the parent-directory marker; the source looks the target up without resolving the
  marker and returns one slide. The same slip as for the notes part.
\<close>

lemma parsePptx_detour_deck:
  "map (\<lambda>ref. spec_resolve detour_deck ref \<noteq> None) (slideReferences detour_deck) =
     [True, True] \<and>
   literal_ids detour_deck \<and> \<not> plain_targets detour_deck \<and>
   (case parsePptx no_engine [0, 1] detour_deck of
      Some (Inr slides) \<Rightarrow> length slides = 1
    | _ \<Rightarrow> False)"
  by code_simp

text \<open>
  Claim C1, amended. Take an archive whose parts can all be read and whose manifest has
  \<open>N \<ge> 1\<close> slide references (elements \<open>p:sldId\<close>), such that every relationship
  identifier consists of characters that stand for themselves in a selector string, every
  target the references lead to is a plain relative path (no empty segment, no \<open>.\<close>, no
  parent-directory marker), and every reference resolves to an existing slide part. Then
  \<open>parsePptx\<close> returns exactly \<open>N\<close> slides, the \<open>i\<close>-th one built from the part of the
  \<open>i\<close>-th reference, under every order in which the tasks complete and whatever the
  selector engine. Nothing is said of identifiers and targets of another form.
\<close>

theorem parsePptx_all_resolve:
  assumes refs: "slideReferences arch \<noteq> []"
    and lit: "literal_ids arch"
    and plain: "plain_targets arch"
    and res: "\<forall>ref\<in>set (slideReferences arch). spec_resolve arch ref \<noteq> None"
    and sched: "completes sched arch"
  shows "\<exists>slides. parsePptx eng sched arch = Some (Inr slides) \<and>
           length slides = length (slideReferences arch) \<and>
           map Some slides = map (spec_slide arch) (slideReferences arch)"
proof -
  let ?refs = "slideReferences arch"
  let ?slides = "non_null (map (spec_slide arch) ?refs)"
  from refs obtain presentationXml where manifest: "arch ''ppt/presentation.xml'' = Some presentationXml"
    by (auto dest: slideReferences_nonempty)
  from refs obtain r where "r \<in> set ?refs" by (cases ?refs) auto
  with res have "spec_resolve arch r \<noteq> None" by simp
  then have "\<exists>index. arch ''ppt/_rels/presentation.xml.rels'' = Some index"
    by (rule spec_resolve_index)
  then obtain index where index: "arch ''ppt/_rels/presentation.xml.rels'' = Some index"
    by blast
  have all: "\<forall>ref\<in>set ?refs. spec_slide arch ref \<noteq> None"
    using res by (simp add: spec_slide_None_iff)
  then have eq: "map Some ?slides = map (spec_slide arch) ?refs"
    by (rule non_null_all_Some)
  then have len: "length ?slides = length ?refs"
    by (metis length_map)
  with refs have ne: "?slides \<noteq> []" by auto
  from parsePptx_literal[OF manifest index lit plain sched, of eng] ne
  have "parsePptx eng sched arch = Some (Inr ?slides)" by simp
  with eq len show ?thesis by blast
qed

text \<open>
  Two references, the second task completing first.
\<close>

theorem parsePptx_all_resolve_witness:
  "slideReferences two_deck \<noteq> [] \<and> literal_ids two_deck \<and> plain_targets two_deck \<and>
   list_all (\<lambda>ref. spec_resolve two_deck ref \<noteq> None) (slideReferences two_deck) \<and>
   completes [1, 0] two_deck \<and>
   parsePptx no_engine [1, 0] two_deck = Some (Inr [first_slide, third_slide])"
proof -
  have h1: "slideReferences two_deck \<noteq> []" by code_simp
  have h2: "literal_ids two_deck" by code_simp
  have hp: "plain_targets two_deck" by code_simp
  have h3: "\<forall>ref\<in>set (slideReferences two_deck). spec_resolve two_deck ref \<noteq> None"
    by code_simp
  have h4: "completes [1, 0] two_deck" by code_simp
  have v: "map (spec_slide two_deck) (slideReferences two_deck) =
      map Some [first_slide, third_slide]"
    by code_simp
  from parsePptx_all_resolve[OF h1 h2 hp h3 h4, of no_engine] obtain slides where
    "parsePptx no_engine [1, 0] two_deck = Some (Inr slides)"
    "map Some slides = map (spec_slide two_deck) (slideReferences two_deck)"
    by blast
  with v have "parsePptx no_engine [1, 0] two_deck = Some (Inr [first_slide, third_slide])"
    by (auto dest: map_Some_eq_D)
  with h1 h2 hp h3 h4 show ?thesis by (simp add: list_all_iff)
qed

text \<open>
  Claim C1 as stated fails for \<open>N = 0\<close>: with no reference in the manifest every
  reference resolves, and the import does not return the empty sequence but fails.
\<close>

theorem parsePptx_no_references:
  "slideReferences empty_deck = [] \<and>
   parsePptx no_engine [] empty_deck =
     Some (Inl (Error ''Could not find any slides in the PPTX file.''))"
  by code_simp

section \<open>Failures of the import\<close>

text \<open>
  Claim C2 names three failures: no manifest, no relationship index, no slide
  left. In \<open>quote_deck\<close> the manifest and the index are present and the first reference
  yields a slide, yet the import fails: the second reference's identifier is a quote, the
  selector text built from it is \<^verbatim>\<open>Relationship[Id="""]\<close>, and \<^verbatim>\<open>querySelector\<close> raises a
  syntax error that rejects the whole import.
\<close>

theorem parsePptx_quote_identifier:
  "quote_deck ''ppt/presentation.xml'' \<noteq> None \<and>
   quote_deck ''ppt/_rels/presentation.xml.rels'' \<noteq> None \<and>
   slideTask no_engine quote_deck (ex_reference ''rId1'') = Inr (Some first_slide) \<and>
   parsePptx no_engine [0, 1] quote_deck =
     Some (Inl (SyntaxError (''Relationship[Id='' @ [dquote, dquote, dquote] @ '']'')))"
  by code_simp

section \<open>References that are skipped\<close>

text \<open>
  Claim C3, amended. Take an archive whose parts can all be read and whose manifest
  relationship index is present, such that every relationship identifier of the manifest
  consists of characters that stand for themselves in a selector string and every target
  the references lead to is a plain relative path. Then the task of a reference without
  identifier, with an identifier that has no entry in the index, or with an entry whose
  target part is missing ends without error and without slide. When at least one
  reference resolves, \<open>parsePptx\<close> returns, in manifest order, the slides of exactly the
  references that resolve; when none resolves, it fails, with the error of the import
  without slides or, the manifest being absent, with that of the missing manifest.
  Nothing is said of identifiers and targets of another form.
\<close>

theorem parsePptx_skips_unresolved:
  assumes index: "arch ''ppt/_rels/presentation.xml.rels'' = Some index"
    and lit: "literal_ids arch"
    and plain: "plain_targets arch"
    and sched: "completes sched arch"
  shows "((\<exists>ref\<in>set (slideReferences arch). spec_resolve arch ref \<noteq> None) \<longrightarrow>
            (\<exists>slides. parsePptx eng sched arch = Some (Inr slides) \<and>
               map Some slides =
                 map (spec_slide arch)
                   (filter (\<lambda>ref. spec_resolve arch ref \<noteq> None) (slideReferences arch)))) \<and>
         ((\<forall>ref\<in>set (slideReferences arch). spec_resolve arch ref = None) \<longrightarrow>
            parsePptx eng sched arch =
              Some (Inl (Error
                (if arch ''ppt/presentation.xml'' = None
                 then ''Invalid PPTX file: presentation.xml not found.''
                 else ''Could not find any slides in the PPTX file.'')))) \<and>
         (\<forall>ref\<in>set (slideReferences arch).
            (getAttribute ref ''r:id'' = None \<or>
             (\<exists>rId. getAttribute ref ''r:id'' = Some rId \<and>
                (spec_index_entry index rId = None \<or>
                 (\<exists>entry target. spec_index_entry index rId = Some entry \<and>
                    getAttribute entry ''Target'' = Some target \<and>
                    arch (spec_normalise ''ppt/'' target) = None)))) \<longrightarrow>
            spec_resolve arch ref = None \<and> slideTask eng arch ref = Inr None)"
proof (intro conjI ballI impI)
  let ?refs = "slideReferences arch"
  let ?slides = "non_null (map (spec_slide arch) ?refs)"
  assume some: "\<exists>ref\<in>set (slideReferences arch). spec_resolve arch ref \<noteq> None"
  then have "?refs \<noteq> []" by auto
  then obtain presentationXml where manifest: "arch ''ppt/presentation.xml'' = Some presentationXml"
    by (auto dest: slideReferences_nonempty)
  have eq: "map Some ?slides =
      map (spec_slide arch) (filter (\<lambda>ref. spec_resolve arch ref \<noteq> None) ?refs)"
    by (simp add: map_Some_non_null spec_slide_None_iff)
  from some have "\<not> (\<forall>x\<in>set (map (spec_slide arch) ?refs). x = None)"
    by (auto simp: spec_slide_None_iff)
  then have ne: "?slides \<noteq> []" by (simp only: non_null_Nil_iff not_False_eq_True)
  from parsePptx_literal[OF manifest index lit plain sched, of eng] ne
  have "parsePptx eng sched arch = Some (Inr ?slides)" by simp
  with eq show "\<exists>slides. parsePptx eng sched arch = Some (Inr slides) \<and>
            map Some slides =
              map (spec_slide arch)
                (filter (\<lambda>ref. spec_resolve arch ref \<noteq> None) (slideReferences arch))"
    by blast
next
  let ?refs = "slideReferences arch"
  assume none: "\<forall>ref\<in>set (slideReferences arch). spec_resolve arch ref = None"
  show "parsePptx eng sched arch =
      Some (Inl (Error
        (if arch ''ppt/presentation.xml'' = None
         then ''Invalid PPTX file: presentation.xml not found.''
         else ''Could not find any slides in the PPTX file.'')))"
  proof (cases "arch ''ppt/presentation.xml''")
    case None
    then show ?thesis by (simp add: parsePptx_def)
  next
    case (Some presentationXml)
    from none have "\<forall>x\<in>set (map (spec_slide arch) ?refs). x = None"
      by (auto simp: spec_slide_None_iff)
    then have "non_null (map (spec_slide arch) ?refs) = []"
      by (simp only: non_null_Nil_iff)
    with parsePptx_literal[OF Some index lit plain sched, of eng] Some
    show ?thesis by simp
  qed
next
  fix ref
  assume mem: "ref \<in> set (slideReferences arch)"
    and un: "getAttribute ref ''r:id'' = None \<or>
             (\<exists>rId. getAttribute ref ''r:id'' = Some rId \<and>
                (spec_index_entry index rId = None \<or>
                 (\<exists>entry target. spec_index_entry index rId = Some entry \<and>
                    getAttribute entry ''Target'' = Some target \<and>
                    arch (spec_normalise ''ppt/'' target) = None)))"
  from un show "spec_resolve arch ref = None"
    using index
    by (auto simp: spec_resolve_def spec_target_def truthy_def split: option.splits if_splits)
  then have none: "spec_slide arch ref = None" by (simp add: spec_slide_def)
  from lit mem
  have l: "case getAttribute ref ''r:id'' of None \<Rightarrow> True | Some rId \<Rightarrow> css_literal rId"
    by (simp add: literal_ids_def list_all_iff)
  from plain mem
  have p: "case spec_target arch ref of None \<Rightarrow> True | Some target \<Rightarrow> plain_target target"
    by (simp add: plain_targets_def list_all_iff)
  from slideTask_literal[OF l p, of eng] index none
  show "slideTask eng arch ref = Inr None"
    by (auto split: option.splits)
qed

text \<open>
  Three references of which the second names a missing part: two slides, those of the
  first and the third reference in this order. And the deck whose only reference has no
  identifier: no reference resolves and the import fails.
\<close>

theorem parsePptx_skips_unresolved_witness:
  "three_deck ''ppt/_rels/presentation.xml.rels'' = Some ex_index \<and>
   literal_ids three_deck \<and> plain_targets three_deck \<and> completes [2, 0, 1] three_deck \<and>
   (\<exists>ref\<in>set (slideReferences three_deck). spec_resolve three_deck ref \<noteq> None) \<and>
   length (slideReferences three_deck) = 3 \<and>
   spec_resolve three_deck (slideReferences three_deck ! 1) = None \<and>
   slideTask no_engine three_deck (slideReferences three_deck ! 1) = Inr None \<and>
   parsePptx no_engine [2, 0, 1] three_deck = Some (Inr [first_slide, third_slide]) \<and>
   unidentified_deck ''ppt/_rels/presentation.xml.rels'' = Some ex_index \<and>
   literal_ids unidentified_deck \<and> plain_targets unidentified_deck \<and>
   completes [0] unidentified_deck \<and> unidentified_deck ''ppt/presentation.xml'' \<noteq> None \<and>
   list_all (\<lambda>ref. spec_resolve unidentified_deck ref = None) (slideReferences unidentified_deck) \<and>
   parsePptx no_engine [0] unidentified_deck =
     Some (Inl (Error ''Could not find any slides in the PPTX file.''))"
proof -
  let ?index = "ex_index"
  have h1: "three_deck ''ppt/_rels/presentation.xml.rels'' = Some ?index" by code_simp
  have h2: "literal_ids three_deck" by code_simp
  have hp: "plain_targets three_deck" by code_simp
  have h3: "completes [2, 0, 1] three_deck" by code_simp
  have h4: "\<exists>ref\<in>set (slideReferences three_deck). spec_resolve three_deck ref \<noteq> None"
    by code_simp
  have len: "length (slideReferences three_deck) = 3" by code_simp
  have mem: "slideReferences three_deck ! 1 \<in> set (slideReferences three_deck)"
    using len by simp
  have missing: "\<exists>rId. getAttribute (slideReferences three_deck ! 1) ''r:id'' = Some rId \<and>
      (spec_index_entry ?index rId = None \<or>
       (\<exists>entry target. spec_index_entry ?index rId = Some entry \<and>
          getAttribute entry ''Target'' = Some target \<and>
          three_deck (spec_normalise ''ppt/'' target) = None))"
  proof (intro exI conjI disjI2)
    show "getAttribute (slideReferences three_deck ! 1) ''r:id'' = Some ''rId2''" by code_simp
    show "spec_index_entry ?index ''rId2'' =
        Some (ex_relationship ''rId2'' ''slide'' ''slides/slide2.xml'')"
      by code_simp
    show "getAttribute (ex_relationship ''rId2'' ''slide'' ''slides/slide2.xml'') ''Target'' =
        Some ''slides/slide2.xml''"
      by code_simp
    show "three_deck (spec_normalise ''ppt/'' ''slides/slide2.xml'') = None" by code_simp
  qed
  have v: "map (spec_slide three_deck)
        (filter (\<lambda>ref. spec_resolve three_deck ref \<noteq> None) (slideReferences three_deck)) =
      map Some [first_slide, third_slide]"
    by code_simp
  note main = parsePptx_skips_unresolved[OF h1 h2 hp h3, of no_engine]
  from main h4 obtain slides where
    "parsePptx no_engine [2, 0, 1] three_deck = Some (Inr slides)"
    "map Some slides = map (spec_slide three_deck)
        (filter (\<lambda>ref. spec_resolve three_deck ref \<noteq> None) (slideReferences three_deck))"
    by blast
  with v have r: "parsePptx no_engine [2, 0, 1] three_deck = Some (Inr [first_slide, third_slide])"
    by (auto dest: map_Some_eq_D)
  from main mem missing
  have skipped: "spec_resolve three_deck (slideReferences three_deck ! 1) = None \<and>
        slideTask no_engine three_deck (slideReferences three_deck ! 1) = Inr None"
    by blast
  have u1: "unidentified_deck ''ppt/_rels/presentation.xml.rels'' = Some ?index" by code_simp
  have u2: "literal_ids unidentified_deck" by code_simp
  have up: "plain_targets unidentified_deck" by code_simp
  have u3: "completes [0] unidentified_deck" by code_simp
  have u4: "unidentified_deck ''ppt/presentation.xml'' \<noteq> None" by code_simp
  have u5: "\<forall>ref\<in>set (slideReferences unidentified_deck). spec_resolve unidentified_deck ref = None"
    by code_simp
  from parsePptx_skips_unresolved[OF u1 u2 up u3, of no_engine] u5
  have "parsePptx no_engine [0] unidentified_deck =
      Some (Inl (Error
        (if unidentified_deck ''ppt/presentation.xml'' = None
         then ''Invalid PPTX file: presentation.xml not found.''
         else ''Could not find any slides in the PPTX file.'')))"
    by blast
  with u4 have fails: "parsePptx no_engine [0] unidentified_deck =
      Some (Inl (Error ''Could not find any slides in the PPTX file.''))"
    by simp
  from u5 have u5': "list_all (\<lambda>ref. spec_resolve unidentified_deck ref = None)
      (slideReferences unidentified_deck)"
    by (simp add: list_all_iff)
  from h1 h2 hp h3 h4 len r skipped u1 u2 up u3 u4 u5' fails show ?thesis by blast
qed

text \<open>
  Claim C3 as stated fails when nothing is left: the only reference carries no identifier,
  and the import does not go on with the empty rest but fails.
\<close>

theorem parsePptx_only_reference_skipped:
  "map (\<lambda>ref. getAttribute ref ''r:id'') (slideReferences unidentified_deck) = [None] \<and>
   unidentified_deck ''ppt/_rels/presentation.xml.rels'' \<noteq> None \<and>
   parsePptx no_engine [0] unidentified_deck =
     Some (Inl (Error ''Could not find any slides in the PPTX file.''))"
  by code_simp

section \<open>The path of the notes part\<close>

text \<open>
  Claim C4 expects the target \<^verbatim>\<open>../notesSlides/notesSlide1.xml\<close> to be looked up as
  \<^verbatim>\<open>ppt/notesSlides/notesSlide1.xml\<close>. The importer drops the parent-directory marker
  without leaving the directory of the slides.
\<close>

theorem notes_path_not_normalised:
  "notesFilePath ''../notesSlides/notesSlide1.xml'' = ''ppt/slides/notesSlides/notesSlide1.xml''"
  by (simp add: notesFilePath_def starts_with_def)

section \<open>Title, body and notes of a slide\<close>

text \<open>
  Claim C5 expects the title \<open>Intro to Rome\<close> for a title shape with the runs \<open>Intro\<close>
  and \<open> to Rome\<close>. The type selectors of the importer carry the prefix inside the name
  (\<open>p:sp\<close>), are compared with local names (\<open>sp\<close>), and match nothing.
\<close>

theorem title_of_standard_slide:
  "map textContent (getElementsByTagName standard_title ''a:t'') = [''Intro'', '' to Rome''] \<and>
   extractTitle standard_slide = ''Untitled Slide''"
  by code_simp

text \<open>
  Claim C6 expects one string for each paragraph of the body shape. For the same reason
  as for the title the body shape is not found.
\<close>

theorem content_of_standard_slide:
  "map (\<lambda>p. map textContent (getElementsByTagName p ''a:t''))
     (getElementsByTagName standard_body ''a:p'') =
     [[''Founded in 753 BC''], [''Seven '', ''hills'']] \<and>
   extractContent standard_slide = []"
  by code_simp

text \<open>
  Claim C7 expects the text runs of the notes part that the slide's relationship index
  names. The index of the slide names the part, the part is in the archive and has text
  runs, and the importer, looking below \<open>ppt/slides/\<close>, yields the empty string.
\<close>

theorem notes_of_standard_deck:
  "notesTarget standard_slide_rels = Some ''../notesSlides/notesSlide1.xml'' \<and>
   standard_deck ''ppt/notesSlides/notesSlide1.xml'' = Some standard_notes \<and>
   map textContent (doc_getElementsByTagName standard_notes ''a:t'') = [''Welcome '', ''to Rome.''] \<and>
   standard_deck (slideRelsPath ''slides/slide1.xml'') = Some standard_slide_rels \<and>
   extractNotes standard_deck ''slides/slide1.xml'' = []"
  by code_simp

section \<open>Two runs on the same archive\<close>

text \<open>
  Claim C8. Two runs of \<open>parsePptx\<close> on the same archive, each with its own order of
  completion, both return, and either both yield the same slide sequence or both fail.
  A run takes the archive and nothing else: there is no state that one run could leave to
  the next, and the archive is only read.
\<close>

theorem parsePptx_deterministic:
  assumes s1: "completes sched1 arch" and s2: "completes sched2 arch"
  shows "(\<exists>slides. parsePptx eng sched1 arch = Some (Inr slides) \<and>
                   parsePptx eng sched2 arch = Some (Inr slides)) \<or>
         (\<exists>e1 e2. parsePptx eng sched1 arch = Some (Inl e1) \<and>
                  parsePptx eng sched2 arch = Some (Inl e2))"
proof (cases "arch ''ppt/presentation.xml''")
  case None
  then show ?thesis by (simp add: parsePptx_def)
next
  case (Some presentationXml)
  let ?tasks = "map (slideTask eng arch) (slideReferences arch)"
  have refs: "doc_getElementsByTagName presentationXml ''p:sldId'' = slideReferences arch"
    using Some by (simp add: slideReferences_def)
  have c1: "\<forall>i<length ?tasks. i \<in> set sched1" using s1 by (simp add: completes_iff)
  have c2: "\<forall>i<length ?tasks. i \<in> set sched2" using s2 by (simp add: completes_iff)
  show ?thesis
  proof (cases "\<exists>e. Inl e \<in> set ?tasks")
    case True
    then obtain e0 where e0: "Inl e0 \<in> set ?tasks" by blast
    from Promise_all_rejects[OF c1 e0] obtain e1 where "Promise_all sched1 ?tasks = Some (Inl e1)"
      by blast
    moreover from Promise_all_rejects[OF c2 e0] obtain e2 where "Promise_all sched2 ?tasks = Some (Inl e2)"
      by blast
    ultimately show ?thesis using Some refs by (simp add: parsePptx_def Let_def)
  next
    case False
    then have "\<forall>t\<in>set ?tasks. \<exists>v. t = Inr v" by (metis sumE)
    then have "\<exists>vs. ?tasks = map Inr vs"
      by (metis ex_map_conv)
    then obtain vs where vs: "?tasks = map Inr vs" by blast
    then have len: "length vs = length ?tasks" by (metis length_map)
    have "Promise_all sched1 (map Inr vs) = Some (Inr vs)"
      using c1 len by (intro Promise_all_fulfils) simp
    moreover have "Promise_all sched2 (map Inr vs) = Some (Inr vs)"
      using c2 len by (intro Promise_all_fulfils) simp
    ultimately have "parsePptx eng sched1 arch = parsePptx eng sched2 arch"
      "parsePptx eng sched1 arch \<noteq> None"
      using Some refs vs by (simp_all add: parsePptx_def Let_def del: map_map)
    then obtain r where r: "parsePptx eng sched1 arch = Some r" "parsePptx eng sched2 arch = Some r"
      by (cases "parsePptx eng sched1 arch") auto
    then show ?thesis by (cases r) auto
  qed
qed

text \<open>
  The two orders of completion of two tasks.
\<close>

theorem parsePptx_deterministic_witness:
  "completes [0, 1] two_deck \<and> completes [1, 0] two_deck \<and>
   parsePptx no_engine [0, 1] two_deck = Some (Inr [first_slide, third_slide]) \<and>
   parsePptx no_engine [1, 0] two_deck = Some (Inr [first_slide, third_slide])"
proof -
  have h1: "completes [0, 1] two_deck" by code_simp
  have h2: "completes [1, 0] two_deck" by code_simp
  have v: "parsePptx no_engine [0, 1] two_deck = Some (Inr [first_slide, third_slide])"
    by code_simp
  from parsePptx_deterministic[OF h1 h2, of no_engine] v
  have "parsePptx no_engine [1, 0] two_deck = Some (Inr [first_slide, third_slide])"
    by auto
  with h1 h2 v show ?thesis by blast
qed

section \<open>The markdown export\<close>

text \<open>
  Claim C9. The markdown of a non-empty slide list is the block of the first slide
  followed, for every further slide, by the horizontal rule and the block of that slide; a
  block is the heading with the title, the bullet list and the notes section, and the
  lines of a bullet list are the bullets of the content strings, one for each (for content
  strings without line break).
\<close>

theorem markdownContent_structure:
  assumes "slides \<noteq> []"
  shows "markdownContent slides =
           spec_block (hd slides) @ concat (map (\<lambda>s. spec_rule @ spec_block s) (tl slides)) \<and>
         (\<forall>s\<in>set slides.
            content s \<noteq> [] \<and> (\<forall>p\<in>set (content s). CHR 0x0A \<notin> set p) \<longrightarrow>
            split (spec_bullet_list s) (CHR 0x0A) = map spec_bullet (content s))"
proof -
  from assms obtain s rest where "slides = s # rest" by (cases slides) auto
  then have "markdownContent slides =
      spec_block (hd slides) @ concat (map (\<lambda>s. spec_rule @ spec_block s) (tl slides))"
    by (simp add: markdownContent_def join_concat slideMarkdown_block spec_rule_def comp_def
          del: join.simps)
  then show ?thesis by (simp add: split_bullet_list)
qed

text \<open>
  Two slides, the first with two bullets, the second with none.
\<close>

theorem markdownContent_structure_witness:
  "[first_slide\<lparr>content := [''a'', ''b'']\<rparr>, third_slide] \<noteq> [] \<and>
   markdownContent [first_slide\<lparr>content := [''a'', ''b'']\<rparr>, third_slide] =
     ''## Untitled Slide'' @ newline @ newline @ ''- a'' @ newline @ ''- b'' @ newline @ newline @
     ''### Speaker Notes'' @ newline @ ''first'' @
     newline @ newline @ ''---'' @ newline @ newline @
     ''## Untitled Slide'' @ newline @ newline @ newline @ newline @
     ''### Speaker Notes'' @ newline @ ''third slide'' \<and>
   split (spec_bullet_list (first_slide\<lparr>content := [''a'', ''b'']\<rparr>)) (CHR 0x0A) = [''- a'', ''- b'']"
proof -
  let ?s = "first_slide\<lparr>content := [''a'', ''b'']\<rparr>"
  have h: "[?s, third_slide] \<noteq> []" by simp
  note main = markdownContent_structure[OF h]
  have c: "content ?s \<noteq> [] \<and> (\<forall>p\<in>set (content ?s). CHR 0x0A \<notin> set p)" by simp
  from main c have "split (spec_bullet_list ?s) (CHR 0x0A) = map spec_bullet (content ?s)"
    by simp
  moreover from main have "markdownContent [?s, third_slide] =
      spec_block ?s @ spec_rule @ spec_block third_slide"
    by simp
  ultimately show ?thesis
    by (simp add: spec_block_def spec_rule_def spec_heading_def spec_bullet_list_def
          spec_bullet_def spec_notes_section_def first_slide_def third_slide_def)
qed

section \<open>Images\<close>

text \<open>
  Claim C10. No slide returned by \<open>parsePptx\<close> has an image URL. Saving an edit keeps the
  image URLs as they are, a failed image generation keeps the list, and a successful one
  sets the URL of the current slide and of no other.
\<close>

theorem imported_slides_without_image:
  assumes "parsePptx eng sched arch = Some (Inr slides)"
  shows "(\<forall>s\<in>set slides. imageUrl s = None) \<and>
         map imageUrl (handleSave slides i editedTitle editedNotes) = map imageUrl slides \<and>
         handleGenerateImage slides i (Inl err) = slides \<and>
         map imageUrl (handleGenerateImage slides i (Inr url)) =
           (map imageUrl slides)[i := Some url]"
proof -
  have "imageUrl s = None" if "s \<in> set slides" for s
    using parsePptx_task[OF assms that] by (auto dest: slideTask_imageUrl)
  then show ?thesis
    by (simp add: handleSave_imageUrl handleGenerateImage_imageUrl)
      (simp add: handleGenerateImage_def)
qed

text \<open>
  The slides of \<open>two_deck\<close> and an image generated for the second.
\<close>

theorem imported_slides_without_image_witness:
  "parsePptx no_engine [0, 1] two_deck = Some (Inr [first_slide, third_slide]) \<and>
   imageUrl first_slide = None \<and> imageUrl third_slide = None \<and>
   map imageUrl (handleGenerateImage [first_slide, third_slide] 1 (Inr ''data:image/jpeg;base64,AAAA'')) =
     [None, Some ''data:image/jpeg;base64,AAAA'']"
proof -
  have v: "parsePptx no_engine [0, 1] two_deck = Some (Inr [first_slide, third_slide])"
    by code_simp
  from imported_slides_without_image[OF v, of 1 _ _ _ "''data:image/jpeg;base64,AAAA''"] v
  show ?thesis by simp
qed

end
